theory Spec2Isabelle
  imports Complex_Main "HOL-Library.Sublist" "HOL-Library.AList"
begin

section \<open>Python text\<close>

text \<open>
  A Python \<open>str\<close> is a sequence of Unicode code points. It is modelled as a list of
  natural numbers, one per code point, so that the magnifying-glass sign of the
  comparison blocks (U+1F50D) is a single character as it is in Python. ASCII literals
  of the source are written as HOL strings and converted by \<open>u\<close>.
\<close>

type_synonym ustring = "nat list"

definition u :: "string \<Rightarrow> ustring" where
  "u s = map of_char s"

text \<open>
  \<open>str.strip()\<close> without argument removes the characters for which
  \<open>str.isspace\<close> holds from both ends.
\<close>

definition isspace :: "nat \<Rightarrow> bool" where
  "isspace c \<longleftrightarrow>
     (9 \<le> c \<and> c \<le> 13) \<or> (28 \<le> c \<and> c \<le> 32) \<or> c = 133 \<or> c = 160 \<or> c = 5760
     \<or> (8192 \<le> c \<and> c \<le> 8202) \<or> c = 8232 \<or> c = 8233 \<or> c = 8239 \<or> c = 8287
     \<or> c = 12288"

definition strip :: "ustring \<Rightarrow> ustring" where
  "strip s = rev (dropWhile isspace (rev (dropWhile isspace s)))"

section \<open>clean_filename\<close>

text \<open>
  \<open>re.sub(r'[^\w\-_.]', '_', text)\<close>: every character that is not matched by \<open>\w\<close>
  and is none of \<open>-\<close>, \<open>_\<close>, \<open>.\<close> is replaced by \<open>_\<close>. For a \<open>str\<close> pattern
  \<open>\w\<close> is Unicode aware: on ASCII it is \<open>[a-zA-Z0-9_]\<close>, beyond ASCII it follows
  the Unicode character database, which is not part of the repository and is taken
  as the parameter \<open>uw\<close>.
\<close>

definition ascii_word :: "nat \<Rightarrow> bool" where
  "ascii_word c \<longleftrightarrow>
     (48 \<le> c \<and> c \<le> 57) \<or> (65 \<le> c \<and> c \<le> 90) \<or> (97 \<le> c \<and> c \<le> 122) \<or> c = 95"

definition word_char :: "(nat \<Rightarrow> bool) \<Rightarrow> nat \<Rightarrow> bool" where
  "word_char uw c = (if c < 128 then ascii_word c else uw c)"

definition safe_char :: "(nat \<Rightarrow> bool) \<Rightarrow> nat \<Rightarrow> bool" where
  "safe_char uw c \<longleftrightarrow> word_char uw c \<or> c = 45 \<or> c = 95 \<or> c = 46"

definition clean_filename :: "(nat \<Rightarrow> bool) \<Rightarrow> ustring \<Rightarrow> ustring" where
  "clean_filename uw text = map (\<lambda>c. if safe_char uw c then c else 95) text"

section \<open>Datasets\<close>

text \<open>
  A pandas \<open>DataFrame\<close> as \<open>read_csv\<close> builds it: an ordered list of column labels,
  each with the dtype pandas inferred for the column, and the rows, one cell per
  column. A cell is a number, a text or missing (pandas' NaN marker). The number of
  a cell is the real value of a finite 64-bit float or of an integer. The result of a
  reduction is a \<open>number\<close>: a 64-bit float, which is NaN, an infinity or finite. The dtype
  \<open>Numeric\<close> stands for the dtypes that \<open>pd.api.types.is_numeric_dtype\<close> accepts
  (integer, float, bool), \<open>Object\<close> for the dtype of text columns.
\<close>

datatype cell = Num real | Txt ustring | NA

datatype dtype = Numeric | Object

record dataframe =
  columns :: "(ustring \<times> dtype) list"
  rows :: "cell list list"

datatype number = NaN | NegInf | Fin real | PosInf

fun is_numeric_dtype :: "dtype \<Rightarrow> bool" where
  "is_numeric_dtype Numeric = True"
| "is_numeric_dtype Object = False"

fun typed :: "dtype \<Rightarrow> cell \<Rightarrow> bool" where
  "typed Numeric (Txt t) = False"
| "typed Object (Num x) = False"
| "typed dt c = True"

text \<open>
  What pandas guarantees of a frame read from a CSV file: the labels are distinct
  (duplicates are renamed on reading), every row has one cell per column, and the
  cells of a column fit its dtype.
\<close>

definition wf_frame :: "dataframe \<Rightarrow> bool" where
  "wf_frame df \<longleftrightarrow>
     distinct (map fst (columns df))
     \<and> list_all (\<lambda>r. list_all2 (\<lambda>cd c. typed (snd cd) c) (columns df) r) (rows df)"

definition has_na :: "cell list \<Rightarrow> bool" where
  "has_na r = (NA \<in> set r)"

text \<open>\<open>df.dropna()\<close> and \<open>df.head(n)\<close>.\<close>

definition dropna :: "dataframe \<Rightarrow> dataframe" where
  "dropna df = df\<lparr>rows := filter (\<lambda>r. \<not> has_na r) (rows df)\<rparr>"

definition head :: "nat \<Rightarrow> dataframe \<Rightarrow> dataframe" where
  "head n df = df\<lparr>rows := take n (rows df)\<rparr>"

text \<open>\<open>df[col]\<close> for the column at position \<open>j\<close>: its cells, top to bottom.\<close>

definition getitem :: "dataframe \<Rightarrow> nat \<Rightarrow> cell list" where
  "getitem df j = map (\<lambda>r. r ! j) (rows df)"

section \<open>Series reductions\<close>

text \<open>
  pandas computes the mean, the sample standard deviation and the midpoint of the two
  middle values of a series in 64-bit floating point, with rounding and overflow. That
  arithmetic is the library's, not the repository's, and its three results are
  parameters: \<open>fl_mean xs\<close> and \<open>fl_std xs\<close> for the values \<open>xs\<close> of a series,
  \<open>fl_mid a b\<close> for the mean of two values. Nothing is assumed of them.
\<close>

record float64 =
  fl_mean :: "real list \<Rightarrow> number"
  fl_std :: "real list \<Rightarrow> number"
  fl_mid :: "real \<Rightarrow> real \<Rightarrow> number"

text \<open>
  The reductions of a numeric series skip missing cells (\<open>skipna=True\<close>) and return
  NaN when nothing is left; \<open>std\<close> (\<open>ddof=1\<close>) is NaN for fewer than two values.
  The minimum, the maximum and the median of an odd number of values are values of the
  series: taking them involves no arithmetic.
\<close>

fun present :: "cell list \<Rightarrow> real list" where
  "present [] = []"
| "present (Num x # cs) = x # present cs"
| "present (c # cs) = present cs"

definition series_mean :: "float64 \<Rightarrow> real list \<Rightarrow> number" where
  "series_mean F xs = (if xs = [] then NaN else fl_mean F xs)"

definition series_median :: "float64 \<Rightarrow> real list \<Rightarrow> number" where
  "series_median F xs =
     (let s = sort xs; n = length xs in
      if n = 0 then NaN
      else if odd n then Fin (s ! (n div 2))
      else fl_mid F (s ! (n div 2 - 1)) (s ! (n div 2)))"

definition series_std :: "float64 \<Rightarrow> real list \<Rightarrow> number" where
  "series_std F xs = (if length xs < 2 then NaN else fl_std F xs)"

fun series_min :: "real list \<Rightarrow> number" where
  "series_min [] = NaN"
| "series_min (x # xs) = Fin (fold min xs x)"

fun series_max :: "real list \<Rightarrow> number" where
  "series_max [] = NaN"
| "series_max (x # xs) = Fin (fold max xs x)"

section \<open>calculate_statistics\<close>

text \<open>
  Python dictionaries keep insertion order, and \<open>format_stats\<close> reads them in that
  order, so both the statistics mapping and the record of one column are association
  lists; \<open>stats[col] = ...\<close> is \<open>AList.update\<close>.
\<close>

type_synonym metrics = "(ustring \<times> number) list"
type_synonym stats = "(ustring \<times> metrics) list"

definition column_stats :: "float64 \<Rightarrow> cell list \<Rightarrow> metrics" where
  "column_stats F series =
     (let xs = present series in
      [(u ''mean'', series_mean F xs), (u ''median'', series_median F xs),
       (u ''std'', series_std F xs), (u ''min'', series_min xs), (u ''max'', series_max xs)])"

fun stats_loop :: "float64 \<Rightarrow> dataframe \<Rightarrow> (nat \<times> ustring \<times> dtype) list \<Rightarrow> stats \<Rightarrow> stats" where
  "stats_loop F df [] stats = stats"
| "stats_loop F df ((j, col, dt) # rest) stats =
     stats_loop F df rest
       (if is_numeric_dtype dt then AList.update col (column_stats F (getitem df j)) stats
        else stats)"

definition calculate_statistics :: "float64 \<Rightarrow> dataframe \<Rightarrow> stats" where
  "calculate_statistics F df = stats_loop F df (enumerate 0 (columns df)) []"








definition complete :: "dataframe \<Rightarrow> bool" where
  "complete df = list_all (\<lambda>r. \<not> has_na r) (rows df)"

definition nan_metrics :: metrics where
  "nan_metrics =
     [(u ''mean'', NaN), (u ''median'', NaN), (u ''std'', NaN), (u ''min'', NaN), (u ''max'', NaN)]"

text \<open>The entries the loop of \<open>calculate_statistics\<close> appends for the columns \<open>cs\<close>.\<close>

definition numeric_entries :: "float64 \<Rightarrow> dataframe \<Rightarrow> (nat \<times> ustring \<times> dtype) list \<Rightarrow> stats" where
  "numeric_entries F df cs =
     map (\<lambda>(j, col, dt). (col, column_stats F (getitem df j)))
       (filter (\<lambda>(j, col, dt). is_numeric_dtype dt) cs)"

text \<open>
  A float library without rounding, for concrete runs. It agrees with 64-bit arithmetic
  where every intermediate result is a representable number, as on the columns of
  small whole numbers whose statistics are evaluated below.
\<close>

definition exact_floats :: float64 where
  "exact_floats = \<lparr>
     fl_mean = (\<lambda>xs. Fin (sum_list xs / real (length xs))),
     fl_std = (\<lambda>xs. Fin (sqrt (sum_list (map (\<lambda>x. (x - sum_list xs / real (length xs))\<^sup>2) xs)
                              / real (length xs - 1)))),
     fl_mid = (\<lambda>a b. Fin ((a + b) / 2))\<rparr>"


definition no_rows :: dataframe where
  "no_rows = \<lparr>columns = [(u ''queueLength'', Numeric), (u ''notes'', Object)], rows = []\<rparr>"





section \<open>Prompt construction\<close>

definition COLUMN_DESCRIPTIONS :: "(ustring \<times> ustring) list" where
  "COLUMN_DESCRIPTIONS =
     [(u ''queueLength'', u ''Number of requests waiting in the system queue.''),
      (u ''latencyRead'', u ''Time taken to read data (in milliseconds).''),
      (u ''latencyWrite'', u ''Time taken to write data (in milliseconds).''),
      (u ''iopsRead'', u ''Input/Output operations per second for read operations.''),
      (u ''iopsWrite'', u ''Input/Output operations per second for write operations.''),
      (u ''throughputRead'', u ''Amount of data read per second (in MB/s).''),
      (u ''throughputWrite'', u ''Amount of data written per second (in MB/s).'')]"

definition nl :: ustring where
  "nl = [10]"

text \<open>\<open>sep.join(parts)\<close>.\<close>

fun join :: "ustring \<Rightarrow> ustring list \<Rightarrow> ustring" where
  "join sep [] = []"
| "join sep [x] = x"
| "join sep (x # y # ys) = x @ sep @ join sep (y # ys)"

text \<open>
  \<open>format_stats\<close>. The conversion \<open>{value:.2f}\<close> of a float to text is Python's and is
  the parameter \<open>fmt\<close>.
\<close>

definition format_stats :: "(number \<Rightarrow> ustring) \<Rightarrow> stats \<Rightarrow> ustring" where
  "format_stats fmt stats =
     concat (map (\<lambda>(col, metrics).
         u ''**'' @ col @ u ''**:'' @ nl
         @ concat (map (\<lambda>(stat, value). u ''  - '' @ stat @ u '': '' @ fmt value @ nl) metrics))
       stats)"

text \<open>
  The list comprehension of \<open>generate_prompt\<close>: the catalog entries, in catalog order,
  whose column is one of \<open>df.columns\<close>; then the line written for each, and the lines
  joined by newlines.
\<close>

definition described :: "dataframe \<Rightarrow> (ustring \<times> ustring) list" where
  "described df = filter (\<lambda>(col, desc). col \<in> set (map fst (columns df))) COLUMN_DESCRIPTIONS"

definition description_line :: "ustring \<times> ustring \<Rightarrow> ustring" where
  "description_line = (\<lambda>(col, desc). u ''- **'' @ col @ u ''**: '' @ desc)"

definition column_description_text :: "dataframe \<Rightarrow> ustring" where
  "column_description_text df = join nl (map description_line (described df))"

definition generate_prompt :: "(number \<Rightarrow> ustring) \<Rightarrow> dataframe \<Rightarrow> stats \<Rightarrow> ustring" where
  "generate_prompt fmt df stats =
     strip (nl @ u ''You are a system performance analyst.'' @ nl @ nl
       @ u ''Below are column descriptions for the data:'' @ nl
       @ column_description_text df @ nl @ nl
       @ u ''Here are key computed statistics from the data:'' @ nl
       @ format_stats fmt stats @ nl @ nl
       @ u ''Strictly based on the above information:'' @ nl
       @ u ''- Summarize patterns, bottlenecks, or anomalies in 5 to 7 sentences.'' @ nl
       @ u ''- Do NOT assume anything beyond the data.'' @ nl
       @ u ''- Be objective, concise, and data-driven.'' @ nl)"

section \<open>Files, console and the external process\<close>

text \<open>
  The program's surroundings are a record passed through every effectful function:
  the files (text files and saved figures, by path), the directories made, the lines
  printed, and the number of external processes run so far. Text is kept decoded; a
  figure is kept as its title, its y label and the plotted cells. Directory creation
  and writes are taken to succeed.
\<close>

datatype content = Text ustring | Figure ustring ustring "cell list"

datatype error = FileNotFoundError ustring | UnicodeDecodeError ustring | ParserError ustring

record proc_result =
  returncode :: int
  stdout :: ustring
  stderr :: ustring

record world =
  files :: "ustring \<rightharpoonup> content"
  dirs :: "ustring set"
  console :: "ustring list"
  calls :: nat

text \<open>
  What the program uses and the repository does not define: the Unicode part of
  \<open>\w\<close>, the float formatting, the float arithmetic of the series reductions,
  the CSV parser of pandas, and the process
  \<open>ollama run mistral\<close>, whose result may depend on the prompt and on how many
  processes ran before it.
\<close>

record lib =
  unicode_word :: "nat \<Rightarrow> bool"
  format_2f :: "number \<Rightarrow> ustring"
  floats :: float64
  parse_csv :: "ustring \<Rightarrow> error + dataframe"
  ollama :: "nat \<Rightarrow> ustring \<Rightarrow> proc_result"

definition print :: "ustring \<Rightarrow> world \<Rightarrow> world" where
  "print line w = w\<lparr>console := console w @ [line]\<rparr>"

definition write_file :: "ustring \<Rightarrow> content \<Rightarrow> world \<Rightarrow> world" where
  "write_file path c w = w\<lparr>files := (files w)(path \<mapsto> c)\<rparr>"

definition open_file :: "world \<Rightarrow> ustring \<Rightarrow> error + content" where
  "open_file w path = (case files w path of None \<Rightarrow> Inl (FileNotFoundError path) | Some c \<Rightarrow> Inr c)"

fun read_text :: "ustring \<Rightarrow> content \<Rightarrow> error + ustring" where
  "read_text path (Text t) = Inr t"
| "read_text path (Figure title ylabel cells) = Inl (UnicodeDecodeError path)"

definition run_ollama :: "lib \<Rightarrow> ustring \<Rightarrow> world \<Rightarrow> proc_result \<times> world" where
  "run_ollama L prompt w = (ollama L (calls w) prompt, w\<lparr>calls := Suc (calls w)\<rparr>)"

definition read_csv :: "lib \<Rightarrow> world \<Rightarrow> ustring \<Rightarrow> error + dataframe" where
  "read_csv L w path =
     (case open_file w path of Inl e \<Rightarrow> Inl e
      | Inr c \<Rightarrow> (case read_text path c of Inl e \<Rightarrow> Inl e | Inr t \<Rightarrow> parse_csv L t))"

section \<open>Paths\<close>

text \<open>
  \<open>os.path.basename\<close>, the root part of \<open>os.path.splitext\<close> (applied to a base
  name) and \<open>os.path.join\<close> of two parts, as \<open>posixpath\<close> defines them. The slash
  is 47 and the dot is 46.
\<close>

definition basename :: "ustring \<Rightarrow> ustring" where
  "basename p = rev (takeWhile (\<lambda>c. c \<noteq> 47) (rev p))"

definition splitext_root :: "ustring \<Rightarrow> ustring" where
  "splitext_root b =
     (if 46 \<notin> set b then b
      else let ext = takeWhile (\<lambda>c. c \<noteq> 46) (rev b);
               stem = take (length b - length ext - 1) b
           in if list_all (\<lambda>c. c = 46) stem then b else stem)"

definition path_join :: "ustring \<Rightarrow> ustring \<Rightarrow> ustring" where
  "path_join a b =
     (if b \<noteq> [] \<and> hd b = 47 then b
      else if a = [] \<or> last a = 47 then a @ b
      else a @ [47] @ b)"

text \<open>\<open>os.makedirs(path, exist_ok=True)\<close>: the directory and its parents exist afterwards.\<close>

definition makedirs :: "ustring \<Rightarrow> world \<Rightarrow> world" where
  "makedirs path w =
     w\<lparr>dirs := dirs w \<union> set ([take i path. i \<leftarrow> [1..<length path], path ! i = 47] @ [path])\<rparr>"

section \<open>plot_metrics\<close>

text \<open>
  One figure per numeric column, saved under \<open>plots/<base name>/\<close> in a file named
  after the cleaned column label. \<open>reset_index(drop=True)\<close> renumbers the rows and
  leaves the cells as they are.
\<close>

definition plot_file :: "lib \<Rightarrow> ustring \<Rightarrow> ustring \<Rightarrow> ustring" where
  "plot_file L week_folder col =
     path_join week_folder (clean_filename (unicode_word L) col @ u ''.png'')"

fun plot_loop :: "lib \<Rightarrow> dataframe \<Rightarrow> ustring \<Rightarrow> (nat \<times> ustring \<times> dtype) list \<Rightarrow> world \<Rightarrow> world" where
  "plot_loop L df week_folder [] w = w"
| "plot_loop L df week_folder ((j, col, dt) # rest) w =
     plot_loop L df week_folder rest
       (if is_numeric_dtype dt then
          (let filename = plot_file L week_folder col in
           print (u '' Saved plot: '' @ filename)
             (write_file filename (Figure (col @ u '' over Time'') col (getitem df j)) w))
        else w)"

definition plot_metrics :: "lib \<Rightarrow> dataframe \<Rightarrow> ustring \<Rightarrow> world \<Rightarrow> world" where
  "plot_metrics L df csv_name w =
     (let base_name = splitext_root (basename csv_name);
          week_folder = path_join (u ''plots'') base_name
      in plot_loop L df week_folder (enumerate 0 (columns df)) (makedirs week_folder w))"

section \<open>generate_summary\<close>

definition load_dataset :: "lib \<Rightarrow> world \<Rightarrow> ustring \<Rightarrow> error + dataframe" where
  "load_dataset L w csv_file =
     (case read_csv L w csv_file of Inl e \<Rightarrow> Inl e | Inr raw \<Rightarrow> Inr (head 100 (dropna raw)))"

definition generate_summary :: "lib \<Rightarrow> ustring \<Rightarrow> ustring \<Rightarrow> world \<Rightarrow> error + world" where
  "generate_summary L csv_file output_txt w =
     (case load_dataset L w csv_file of
        Inl e \<Rightarrow> Inl e
      | Inr df \<Rightarrow>
          (let stats = calculate_statistics (floats L) df;
               prompt = generate_prompt (format_2f L) df stats;
               w1 = plot_metrics L df csv_file w;
               (result, w2) = run_ollama L prompt w1
           in if returncode result \<noteq> 0 then
                Inr (print (stderr result)
                      (print (u '' Error while running ollama for '' @ csv_file) w2))
              else
                (let summary = strip (stdout result) in
                 Inr (print (u '' Summary written to '' @ output_txt)
                       (write_file output_txt (Text summary) w2)))))"

section \<open>compare_summaries\<close>

text \<open>\<open>str(n)\<close> for a natural number: its decimal digits.\<close>

fun str_nat :: "nat \<Rightarrow> ustring" where
  "str_nat n = (if n < 10 then [48 + n] else str_nat (n div 10) @ [48 + n mod 10])"

declare str_nat.simps [simp del]

definition compare_prompt :: "nat \<Rightarrow> ustring \<Rightarrow> ustring \<Rightarrow> ustring" where
  "compare_prompt i summary1 summary2 =
     strip (nl
       @ u ''You are a system performance analyst. Below are two weekly summaries of system metrics.''
       @ nl @ nl
       @ u ''Compare Week '' @ str_nat (i + 1) @ u '' and Week '' @ str_nat (i + 2) @ u '':'' @ nl
       @ u ''- Focus only on actual differences in trends or anomalies.'' @ nl
       @ u ''- Do not repeat similar parts.'' @ nl
       @ u ''- Be precise and analytical.'' @ nl @ nl
       @ u ''--- Week '' @ str_nat (i + 1) @ u '' Summary ---'' @ nl
       @ summary1 @ nl @ nl
       @ u ''--- Week '' @ str_nat (i + 2) @ u '' Summary ---'' @ nl
       @ summary2 @ nl)"

text \<open>The block appended for pair \<open>i\<close>; 128269 is the magnifying glass, 45 the dash.\<close>

definition comparison_block :: "nat \<Rightarrow> ustring \<Rightarrow> ustring" where
  "comparison_block i comparison_text =
     nl @ [128269] @ u '' Week '' @ str_nat (i + 1) @ u '' vs Week '' @ str_nat (i + 2) @ u '':''
     @ nl @ comparison_text @ nl @ replicate 80 45 @ nl"

text \<open>
  The two files of a pair are opened first and read next; a missing or undecodable
  file raises out of the function before anything is written.
\<close>

definition read_pair :: "world \<Rightarrow> ustring \<Rightarrow> ustring \<Rightarrow> error + (ustring \<times> ustring)" where
  "read_pair w p1 p2 =
     (case open_file w p1 of Inl e \<Rightarrow> Inl e | Inr f1 \<Rightarrow>
      case open_file w p2 of Inl e \<Rightarrow> Inl e | Inr f2 \<Rightarrow>
      case read_text p1 f1 of Inl e \<Rightarrow> Inl e | Inr t1 \<Rightarrow>
      case read_text p2 f2 of Inl e \<Rightarrow> Inl e | Inr t2 \<Rightarrow> Inr (strip t1, strip t2))"

fun compare_loop ::
  "lib \<Rightarrow> ustring list \<Rightarrow> nat list \<Rightarrow> ustring list \<Rightarrow> world \<Rightarrow> error + (ustring list \<times> world)" where
  "compare_loop L summary_files [] comparisons w = Inr (comparisons, w)"
| "compare_loop L summary_files (i # rest) comparisons w =
     (case read_pair w (summary_files ! i) (summary_files ! (i + 1)) of
        Inl e \<Rightarrow> Inl e
      | Inr (summary1, summary2) \<Rightarrow>
          (let prompt = compare_prompt i summary1 summary2;
               (result, w1) = run_ollama L prompt w
           in if returncode result \<noteq> 0 then
                compare_loop L summary_files rest comparisons
                  (print (stderr result)
                    (print (u '' Error comparing summaries for Week '' @ str_nat (i + 1)
                       @ u '' and Week '' @ str_nat (i + 2)) w1))
              else
                compare_loop L summary_files rest
                  (comparisons @ [comparison_block i (strip (stdout result))]) w1))"

definition compare_summaries :: "lib \<Rightarrow> ustring list \<Rightarrow> ustring \<Rightarrow> world \<Rightarrow> error + world" where
  "compare_summaries L summary_files output_file w =
     (case compare_loop L summary_files [0..<length summary_files - 1] [] w of
        Inl e \<Rightarrow> Inl e
      | Inr (comparisons, w1) \<Rightarrow>
          Inr (print (u '' Differences saved to '' @ output_file)
                (write_file output_file (Text (concat comparisons)) w1)))"

text \<open>\<open>text.split('\n')\<close>, used to read the lines of the description section back.\<close>

fun split_lines :: "ustring \<Rightarrow> ustring list" where
  "split_lines [] = [[]]"
| "split_lines (c # cs) =
     (if c = 10 then [] # split_lines cs
      else (case split_lines cs of l # ls \<Rightarrow> (c # l) # ls | [] \<Rightarrow> [[c]]))"

text \<open>A frame with a text column between two numeric ones.\<close>

definition mixed_frame :: dataframe where
  "mixed_frame = \<lparr>columns = [(u ''latencyRead'', Numeric), (u ''notes'', Object),
       (u ''queueLength'', Numeric)],
     rows = [[Num 7, Txt (u ''ok''), Num 1], [Num 11, Txt (u ''slow''), Num 5],
       [Num 9, Txt (u ''fine''), Num 3]]\<rparr>"

text \<open>A library and a world for concrete runs: the parser returns a fixed frame.\<close>

definition raw_frame :: dataframe where
  "raw_frame = \<lparr>columns = [(u ''queueLength'', Numeric), (u ''notes'', Object)],
     rows = [[Num 1, Txt (u ''a'')], [NA, Txt (u ''b'')], [Num 3, NA], [Num 4, Txt (u ''d'')]]\<rparr>"

definition demo_lib :: lib where
  "demo_lib = \<lparr>unicode_word = (\<lambda>c. False), format_2f = (\<lambda>x. u ''0.00''), floats = exact_floats,
     parse_csv = (\<lambda>t. Inr raw_frame),
     ollama = (\<lambda>n prompt. \<lparr>returncode = (if n = 1 then 1 else 0),
        stdout = u '' text '', stderr = u ''boom''\<rparr>)\<rparr>"

definition demo_world :: world where
  "demo_world = \<lparr>files = [u ''week1.csv'' \<mapsto> Text (u ''queueLength,notes'')],
     dirs = {}, console = [], calls = 0\<rparr>"

text \<open>
  The result of the external process that \<open>generate_summary\<close> runs for the dataset
  \<open>df\<close> when \<open>c\<close> processes ran before: its input is the prompt built from \<open>df\<close> and
  its statistics.
\<close>

definition summary_result :: "lib \<Rightarrow> nat \<Rightarrow> dataframe \<Rightarrow> proc_result" where
  "summary_result L c df =
     ollama L c (generate_prompt (format_2f L) df (calculate_statistics (floats L) df))"

text \<open>The paths of the figures that \<open>plot_metrics\<close> saves, in the order it saves them.\<close>

definition plot_files :: "lib \<Rightarrow> dataframe \<Rightarrow> ustring \<Rightarrow> ustring list" where
  "plot_files L df csv_name =
     map (\<lambda>cd. plot_file L (path_join (u ''plots'') (splitext_root (basename csv_name))) (fst cd))
       (filter (\<lambda>cd. is_numeric_dtype (snd cd)) (columns df))"

text \<open>
  The result of the external process for pair \<open>i\<close> of the comparator, when \<open>c\<close>
  processes ran before the comparator started and \<open>ts\<close> are the texts of the summary
  files: the pair at position \<open>i\<close> is the \<open>i\<close>-th call the comparator makes.
\<close>

definition pair_result :: "lib \<Rightarrow> nat \<Rightarrow> ustring list \<Rightarrow> nat \<Rightarrow> proc_result" where
  "pair_result L c ts i =
     ollama L (c + i) (compare_prompt i (strip (ts ! i)) (strip (ts ! (i + 1))))"

text \<open>Four summaries, for a run of the comparator in which the second call fails.\<close>

definition summary_paths :: "ustring list" where
  "summary_paths = [u ''w1.txt'', u ''w2.txt'', u ''w3.txt'', u ''w4.txt'']"

definition summary_texts :: "ustring list" where
  "summary_texts = [u ''one'', u ''two'', u ''three'', u ''four'']"

definition summary_world :: world where
  "summary_world = \<lparr>files = [u ''w1.txt'' \<mapsto> Text (u ''one''), u ''w2.txt'' \<mapsto> Text (u ''two''),
       u ''w3.txt'' \<mapsto> Text (u ''three''), u ''w4.txt'' \<mapsto> Text (u ''four'')],
     dirs = {}, console = [], calls = 0\<rparr>"

section \<open>Properties of clean_filename\<close>

lemma safe_char_underscore: "safe_char uw 95"
  by (simp add: safe_char_def)

lemma clean_filename_nth:
  "i < length s \<Longrightarrow>
     clean_filename uw s ! i = (if safe_char uw (s ! i) then s ! i else 95)"
  by (simp add: clean_filename_def)

lemma clean_filename_safe: "c \<in> set (clean_filename uw s) \<Longrightarrow> safe_char uw c"
  by (auto simp: clean_filename_def safe_char_underscore)

lemma latency_read: "clean_filename uw (u ''latency/read'') = u ''latency_read''"
  by (simp add: clean_filename_def u_def safe_char_def word_char_def ascii_word_def)

text \<open>
  Claim C8. For every input string, \<open>clean_filename\<close> keeps the length, replaces each
  character outside the word characters, dash, underscore and dot by an underscore
  and leaves every other character alone, so the result only holds characters of
  those classes; \<open>latency/read\<close> becomes \<open>latency_read\<close>.
\<close>

theorem clean_filename_only_safe:
  "length (clean_filename uw s) = length s
   \<and> (\<forall>i < length s. clean_filename uw s ! i = (if safe_char uw (s ! i) then s ! i else 95))
   \<and> (\<forall>c \<in> set (clean_filename uw s). safe_char uw c)
   \<and> clean_filename uw (u ''latency/read'') = u ''latency_read''"
proof (intro conjI allI impI ballI)
  show "length (clean_filename uw s) = length s"
    by (simp add: clean_filename_def)
next
  fix i assume "i < length s"
  then show "clean_filename uw s ! i = (if safe_char uw (s ! i) then s ! i else 95)"
    by (rule clean_filename_nth)
next
  fix c assume "c \<in> set (clean_filename uw s)"
  then show "safe_char uw c"
    by (rule clean_filename_safe)
next
  show "clean_filename uw (u ''latency/read'') = u ''latency_read''"
    by (rule latency_read)
qed

theorem clean_filename_only_safe_witness:
  "clean_filename (\<lambda>c. False) (u ''a b/c.d'') = u ''a_b_c.d''
   \<and> list_all (safe_char (\<lambda>c. False)) (clean_filename (\<lambda>c. False) (u ''a b/c.d''))"
proof -
  have e: "clean_filename (\<lambda>c. False) (u ''a b/c.d'') = u ''a_b_c.d''"
    by (simp add: clean_filename_def u_def safe_char_def word_char_def ascii_word_def)
  have "\<forall>c \<in> set (clean_filename (\<lambda>c. False) (u ''a b/c.d'')). safe_char (\<lambda>c. False) c"
    using clean_filename_only_safe [of "\<lambda>c. False" "u ''a b/c.d''"] by blast
  then have "list_all (safe_char (\<lambda>c. False)) (clean_filename (\<lambda>c. False) (u ''a b/c.d''))"
    by (simp add: list_all_iff)
  with e show ?thesis by simp
qed

text \<open>
  Claim C10. \<open>clean_filename\<close> is idempotent: cleaning a cleaned name changes nothing.
\<close>

theorem clean_filename_idem:
  "clean_filename uw (clean_filename uw s) = clean_filename uw s"
  by (simp add: clean_filename_def safe_char_underscore)

section \<open>The series reductions\<close>

lemma fold_min_Min: "fold min xs x = Min (set (x # xs))" for x :: real
  by (rule Min.set_eq_fold [symmetric])

lemma fold_max_Max: "fold max xs x = Max (set (x # xs))" for x :: real
  by (rule Max.set_eq_fold [symmetric])

lemma series_min_Min: "xs \<noteq> [] \<Longrightarrow> series_min xs = Fin (Min (set xs))"
  by (cases xs) (simp_all add: fold_min_Min del: set_simps)

lemma series_max_Max: "xs \<noteq> [] \<Longrightarrow> series_max xs = Fin (Max (set xs))"
  by (cases xs) (simp_all add: fold_max_Max del: set_simps)


lemma series_median_odd:
  "odd (length xs) \<Longrightarrow> series_median F xs = Fin (sort xs ! (length xs div 2))"
  by (auto simp: series_median_def Let_def)

lemma series_median_even:
  "xs \<noteq> [] \<Longrightarrow> even (length xs) \<Longrightarrow>
     series_median F xs
       = fl_mid F (sort xs ! (length xs div 2 - 1)) (sort xs ! (length xs div 2))"
  by (simp add: series_median_def Let_def)




section \<open>The loop of calculate_statistics\<close>

lemma update_fresh: "k \<notin> fst ` set al \<Longrightarrow> AList.update k v al = al @ [(k, v)]"
  by (induction al) auto

lemma stats_loop_append:
  "distinct (map (fst \<circ> snd) cs) \<Longrightarrow> (\<forall>e \<in> set cs. fst (snd e) \<notin> fst ` set st) \<Longrightarrow>
     stats_loop F df cs st = st @ numeric_entries F df cs"
proof (induction cs arbitrary: st)
  case Nil
  then show ?case by (simp add: numeric_entries_def)
next
  case (Cons e cs)
  obtain j col dt where e: "e = (j, col, dt)" by (cases e)
  show ?case
  proof (cases "is_numeric_dtype dt")
    case True
    have fresh: "col \<notin> fst ` set st" using Cons.prems(2) e by simp
    have "\<forall>e' \<in> set cs. fst (snd e') \<notin> fst ` set (st @ [(col, column_stats F (getitem df j))])"
      using Cons.prems e by (auto simp: image_iff)
    with Cons.IH[of "st @ [(col, column_stats F (getitem df j))]"] Cons.prems(1)
    have "stats_loop F df cs (st @ [(col, column_stats F (getitem df j))])
            = (st @ [(col, column_stats F (getitem df j))]) @ numeric_entries F df cs"
      by simp
    then show ?thesis using True e fresh
      by (simp add: update_fresh numeric_entries_def)
  next
    case False
    have "\<forall>e' \<in> set cs. fst (snd e') \<notin> fst ` set st" using Cons.prems(2) by simp
    with Cons.IH[of st] Cons.prems(1) have "stats_loop F df cs st = st @ numeric_entries F df cs"
      by simp
    then show ?thesis using False e by (simp add: numeric_entries_def)
  qed
qed

lemma enumerate_labels: "map (fst \<circ> snd) (enumerate n cols) = map fst cols"
  by (induction cols arbitrary: n) auto

lemma calculate_statistics_entries:
  "distinct (map fst (columns df)) \<Longrightarrow>
     calculate_statistics F df = numeric_entries F df (enumerate 0 (columns df))"
  using stats_loop_append[of "enumerate 0 (columns df)" "[]" F df]
  by (simp add: calculate_statistics_def enumerate_labels)

lemma stats_loop_empty:
  "stats_loop F df cs st = [] \<longleftrightarrow> st = [] \<and> \<not> list_ex (\<lambda>e. is_numeric_dtype (snd (snd e))) cs"
proof (induction cs arbitrary: st)
  case Nil
  then show ?case by simp
next
  case (Cons e cs)
  obtain j col dt where e: "e = (j, col, dt)" by (cases e)
  have "AList.update col v st \<noteq> []" for v by (cases st) auto
  with Cons.IH e show ?case by auto
qed

lemma numeric_cell:
  assumes "list_all2 (\<lambda>cd c. typed (snd cd) c) cols r" "\<not> has_na r" "j < length cols"
    "is_numeric_dtype (snd (cols ! j))"
  shows "\<exists>x. r ! j = Num x"
proof -
  have len: "length r = length cols" using assms(1) by (simp add: list_all2_lengthD)
  have t: "typed (snd (cols ! j)) (r ! j)" using list_all2_nthD[OF assms(1,3)] .
  have "r ! j \<in> set r" using len assms(3) by simp
  then have "r ! j \<noteq> NA" using assms(2) by (auto simp: has_na_def)
  with t assms(4) show ?thesis
    by (cases "snd (cols ! j)"; cases "r ! j") auto
qed


section \<open>Properties of calculate_statistics\<close>

lemma numeric_entries_mem:
  assumes "e \<in> set (numeric_entries F df (enumerate 0 cols))"
  shows "\<exists>j. j < length cols \<and> is_numeric_dtype (snd (cols ! j))
            \<and> e = (fst (cols ! j), column_stats F (getitem df j))"
proof -
  from assms obtain j col dt where m: "(j, col, dt) \<in> set (enumerate 0 cols)"
      and n: "is_numeric_dtype dt" and e: "e = (col, column_stats F (getitem df j))"
    by (auto simp: numeric_entries_def)
  from m have "j < length cols" "cols ! j = (col, dt)"
    by (auto simp: in_set_enumerate_eq)
  with n e show ?thesis by auto
qed

lemma numeric_entries_keys:
  "map fst (numeric_entries F df (enumerate n cols))
     = map fst (filter (\<lambda>cd. is_numeric_dtype (snd cd)) cols)"
  by (induction cols arbitrary: n) (auto simp: numeric_entries_def)

lemma numeric_entries_no_rows:
  "rows df = [] \<Longrightarrow>
     numeric_entries F df (enumerate n cols)
       = map (\<lambda>cd. (fst cd, nan_metrics)) (filter (\<lambda>cd. is_numeric_dtype (snd cd)) cols)"
  by (induction cols arbitrary: n)
     (auto simp: numeric_entries_def getitem_def column_stats_def nan_metrics_def
        series_mean_def series_median_def series_std_def)

lemma list_ex_enumerate:
  "list_ex (\<lambda>e. P (snd e)) (enumerate n xs) = list_ex P xs"
  by (induction xs arbitrary: n) auto


lemma u_neq: "u ''queueLength'' \<noteq> u ''latencyRead''" "u ''queueLength'' \<noteq> u ''notes''"
  by (simp_all add: u_def)





text \<open>
  Claim C5, as the code has it. \<open>calculate_statistics\<close> is a total function (it has
  no error result). Its mapping is empty exactly when the dataset has no column of
  numeric dtype; for a well-formed dataset without rows it holds one entry per
  numeric column, all five metrics of which are NaN.
\<close>

theorem calculate_statistics_no_rows:
  "(calculate_statistics F df = [] \<longleftrightarrow>
      \<not> list_ex (\<lambda>cd. is_numeric_dtype (snd cd)) (columns df))
   \<and> (wf_frame df \<and> rows df = [] \<longrightarrow>
        calculate_statistics F df =
          map (\<lambda>cd. (fst cd, nan_metrics))
            (filter (\<lambda>cd. is_numeric_dtype (snd cd)) (columns df)))"
proof (intro conjI impI)
  show "calculate_statistics F df = [] \<longleftrightarrow>
      \<not> list_ex (\<lambda>cd. is_numeric_dtype (snd cd)) (columns df)"
    using list_ex_enumerate[of "\<lambda>cd. is_numeric_dtype (snd cd)" 0 "columns df"]
    by (simp add: calculate_statistics_def stats_loop_empty)
next
  assume a: "wf_frame df \<and> rows df = []"
  then have "calculate_statistics F df = numeric_entries F df (enumerate 0 (columns df))"
    by (intro calculate_statistics_entries) (simp add: wf_frame_def)
  then show "calculate_statistics F df =
          map (\<lambda>cd. (fst cd, nan_metrics))
            (filter (\<lambda>cd. is_numeric_dtype (snd cd)) (columns df))"
    using a by (simp add: numeric_entries_no_rows)
qed

theorem calculate_statistics_no_rows_witness:
  "wf_frame no_rows \<and> rows no_rows = []
   \<and> calculate_statistics exact_floats no_rows = [(u ''queueLength'', nan_metrics)]
   \<and> calculate_statistics exact_floats (no_rows\<lparr>columns := [(u ''notes'', Object)]\<rparr>) = []"
proof -
  have w: "wf_frame no_rows \<and> rows no_rows = []"
    by (simp add: no_rows_def wf_frame_def u_neq)
  have "calculate_statistics exact_floats no_rows = [(u ''queueLength'', nan_metrics)]"
    using calculate_statistics_no_rows[of exact_floats no_rows] w by (simp add: no_rows_def)
  moreover have "calculate_statistics exact_floats (no_rows\<lparr>columns := [(u ''notes'', Object)]\<rparr>) = []"
    using calculate_statistics_no_rows[of exact_floats "no_rows\<lparr>columns := [(u ''notes'', Object)]\<rparr>"]
    by simp
  ultimately show ?thesis using w by simp
qed

text \<open>
  The claim C5 as stated fails on a dataset without rows that has a numeric column
  (every row of the CSV file had a missing value): the mapping is not empty.
\<close>

theorem empty_dataset_has_entries:
  "rows no_rows = []
   \<and> (\<forall>F. calculate_statistics F no_rows = [(u ''queueLength'', nan_metrics)]
          \<and> calculate_statistics F no_rows \<noteq> [])"
  by (simp add: calculate_statistics_def no_rows_def getitem_def column_stats_def
      nan_metrics_def series_mean_def series_median_def series_std_def)

section \<open>Loading a dataset\<close>

lemma dropna_head_idem: "head n (dropna (head n (dropna df))) = head n (dropna df)"
proof -
  have "filter (\<lambda>r. \<not> has_na r) (take n (filter (\<lambda>r. \<not> has_na r) (rows df)))
          = take n (filter (\<lambda>r. \<not> has_na r) (rows df))"
    by (rule filter_True) (auto dest: in_set_takeD)
  then show ?thesis by (simp add: head_def dropna_def)
qed

lemma read_csv_frame: "files w' p = files w p \<Longrightarrow> read_csv L w' p = read_csv L w p"
  by (simp add: read_csv_def open_file_def)

text \<open>
  Claim C3. Loading drops every row with a missing value first and keeps the first
  100 of the remaining rows next: the retained rows are \<open>take 100\<close> of the filtered
  rows of the parsed file, none has a missing value, and there are at most 100. The
  result depends on the world only through the content of the CSV file (so not on how
  many processes ran or what was printed before), and cleaning a loaded dataset again
  changes nothing.
\<close>

theorem load_dataset_clean:
  "(files w' csv_file = files w csv_file \<longrightarrow>
      load_dataset L w' csv_file = load_dataset L w csv_file)
   \<and> (load_dataset L w csv_file = Inr df \<longrightarrow>
        (\<exists>raw. read_csv L w csv_file = Inr raw \<and> columns df = columns raw
           \<and> rows df = take 100 (filter (\<lambda>r. \<not> has_na r) (rows raw)))
        \<and> list_all (\<lambda>r. \<not> has_na r) (rows df)
        \<and> length (rows df) \<le> 100
        \<and> head 100 (dropna df) = df)"
proof (intro conjI impI)
  assume "files w' csv_file = files w csv_file"
  then have "read_csv L w' csv_file = read_csv L w csv_file"
    by (rule read_csv_frame)
  then show "load_dataset L w' csv_file = load_dataset L w csv_file"
    by (simp add: load_dataset_def)
next
  assume a: "load_dataset L w csv_file = Inr df"
  obtain raw where raw: "read_csv L w csv_file = Inr raw" and df: "df = head 100 (dropna raw)"
  proof (cases "read_csv L w csv_file")
    case (Inl e)
    with a show ?thesis by (simp add: load_dataset_def)
  next
    case (Inr raw)
    with a have "df = head 100 (dropna raw)" by (simp add: load_dataset_def)
    with Inr show ?thesis by (rule that)
  qed
  have r: "rows df = take 100 (filter (\<lambda>r. \<not> has_na r) (rows raw))"
    unfolding df by (simp add: head_def dropna_def)
  have c: "columns df = columns raw"
    unfolding df by (simp add: head_def dropna_def)
  show "\<exists>raw. read_csv L w csv_file = Inr raw \<and> columns df = columns raw
           \<and> rows df = take 100 (filter (\<lambda>r. \<not> has_na r) (rows raw))"
    using raw r c by blast
  have "\<not> has_na x" if "x \<in> set (rows df)" for x
    using that unfolding r by (auto dest: in_set_takeD)
  then show "list_all (\<lambda>r. \<not> has_na r) (rows df)"
    by (simp add: list_all_iff)
  show "length (rows df) \<le> 100"
    unfolding r by simp
  show "head 100 (dropna df) = df"
    unfolding df by (rule dropna_head_idem)
qed

theorem load_dataset_clean_witness:
  "load_dataset demo_lib demo_world (u ''week1.csv'')
      = Inr (raw_frame\<lparr>rows := [[Num 1, Txt (u ''a'')], [Num 4, Txt (u ''d'')]]\<rparr>)
   \<and> load_dataset demo_lib (demo_world\<lparr>calls := 5\<rparr>) (u ''week1.csv'')
      = load_dataset demo_lib demo_world (u ''week1.csv'')
   \<and> head 100 (dropna (raw_frame\<lparr>rows := [[Num 1, Txt (u ''a'')], [Num 4, Txt (u ''d'')]]\<rparr>))
      = raw_frame\<lparr>rows := [[Num 1, Txt (u ''a'')], [Num 4, Txt (u ''d'')]]\<rparr>"
proof -
  let ?df = "raw_frame\<lparr>rows := [[Num 1, Txt (u ''a'')], [Num 4, Txt (u ''d'')]]\<rparr>"
  have l: "load_dataset demo_lib demo_world (u ''week1.csv'') = Inr ?df"
    by (simp add: load_dataset_def read_csv_def open_file_def demo_world_def demo_lib_def
        head_def dropna_def raw_frame_def has_na_def)
  have f: "files (demo_world\<lparr>calls := 5\<rparr>) (u ''week1.csv'') = files demo_world (u ''week1.csv'')"
    by simp
  note t = load_dataset_clean[of "demo_world\<lparr>calls := 5\<rparr>" "u ''week1.csv''" demo_world demo_lib ?df]
  have "load_dataset demo_lib (demo_world\<lparr>calls := 5\<rparr>) (u ''week1.csv'')
      = load_dataset demo_lib demo_world (u ''week1.csv'')"
    using t f by blast
  moreover have "head 100 (dropna ?df) = ?df"
    using t l by blast
  ultimately show ?thesis using l by simp
qed

section \<open>The description section of the prompt\<close>

lemma split_lines_nonempty: "split_lines s \<noteq> []"
  by (induction s) (auto split: list.splits)

lemma split_lines_line: "10 \<notin> set x \<Longrightarrow> split_lines (x @ 10 # s) = x # split_lines s"
  by (induction x) (auto split: list.splits)

lemma split_lines_single: "10 \<notin> set x \<Longrightarrow> split_lines x = [x]"
  by (induction x) (auto split: list.splits)

lemma split_lines_join:
  "(\<forall>x \<in> set xs. 10 \<notin> set x) \<Longrightarrow>
     split_lines (join nl xs @ 10 # s) = (if xs = [] then [[]] else xs) @ split_lines s"
proof (induction xs rule: induct_list012)
  case 1
  then show ?case by simp
next
  case (2 x)
  then show ?case by (simp add: split_lines_line)
next
  case (3 x y zs)
  then show ?case by (simp add: nl_def split_lines_line)
qed

lemma catalog_lines_plain: "\<forall>e \<in> set COLUMN_DESCRIPTIONS. 10 \<notin> set (description_line e)"
  by (simp add: COLUMN_DESCRIPTIONS_def description_line_def u_def)

lemma described_keys:
  "map fst (described df)
     = filter (\<lambda>c. c \<in> set (map fst (columns df))) (map fst COLUMN_DESCRIPTIONS)"
  by (simp add: described_def filter_map comp_def case_prod_unfold)

lemma strip_lines:
  assumes "a \<noteq> []" "\<not> isspace (hd a)" "b \<noteq> []" "\<not> isspace (last b)"
  shows "strip (nl @ a @ m @ b @ nl) = a @ m @ b"
proof -
  obtain x a' where a: "a = x # a'" using assms(1) by (cases a) auto
  obtain y b' where b: "b = b' @ [y]" using assms(3) by (cases b rule: rev_cases) auto
  have sp: "isspace 10" by (simp add: isspace_def)
  show ?thesis using assms(2,4) sp by (simp add: a b strip_def nl_def)
qed

lemma generate_prompt_text:
  "generate_prompt fmt df stats =
     u ''You are a system performance analyst.'' @ nl @ nl
     @ u ''Below are column descriptions for the data:'' @ nl
     @ column_description_text df @ nl @ nl
     @ u ''Here are key computed statistics from the data:'' @ nl
     @ format_stats fmt stats @ nl @ nl
     @ u ''Strictly based on the above information:'' @ nl
     @ u ''- Summarize patterns, bottlenecks, or anomalies in 5 to 7 sentences.'' @ nl
     @ u ''- Do NOT assume anything beyond the data.'' @ nl
     @ u ''- Be objective, concise, and data-driven.''"
proof -
  let ?a = "u ''You are a system performance analyst.''"
  let ?b = "u ''- Be objective, concise, and data-driven.''"
  let ?m = "nl @ nl
     @ u ''Below are column descriptions for the data:'' @ nl
     @ column_description_text df @ nl @ nl
     @ u ''Here are key computed statistics from the data:'' @ nl
     @ format_stats fmt stats @ nl @ nl
     @ u ''Strictly based on the above information:'' @ nl
     @ u ''- Summarize patterns, bottlenecks, or anomalies in 5 to 7 sentences.'' @ nl
     @ u ''- Do NOT assume anything beyond the data.'' @ nl"
  have 1: "?a \<noteq> []" "\<not> isspace (hd ?a)" by (simp_all add: u_def isspace_def)
  have 2: "?b \<noteq> []" "\<not> isspace (last ?b)" by (simp_all add: u_def isspace_def)
  have "generate_prompt fmt df stats = strip (nl @ ?a @ ?m @ ?b @ nl)"
    unfolding generate_prompt_def by simp
  also have "\<dots> = ?a @ ?m @ ?b" using 1 2 by (rule strip_lines)
  finally show ?thesis by simp
qed

text \<open>
  Claim C7. The prompt that \<open>generate_prompt\<close> returns, split at its newlines, is the
  opening line, an empty line and the heading of the description section; then one
  line per catalog entry whose column is a column of the dataset (a single empty line
  when there is none); then an empty line, the heading of the statistics and what
  follows it. The columns of those lines are the catalog's keys filtered by membership
  in the dataset's columns: a column is listed if and only if it is in both, and the
  listed columns are in catalog order.
\<close>

theorem description_section_lists:
  "split_lines (generate_prompt fmt df stats) =
     [u ''You are a system performance analyst.'', [],
      u ''Below are column descriptions for the data:'']
     @ (if described df = [] then [[]] else map description_line (described df))
     @ [[], u ''Here are key computed statistics from the data:'']
     @ split_lines (format_stats fmt stats @ nl @ nl
         @ u ''Strictly based on the above information:'' @ nl
         @ u ''- Summarize patterns, bottlenecks, or anomalies in 5 to 7 sentences.'' @ nl
         @ u ''- Do NOT assume anything beyond the data.'' @ nl
         @ u ''- Be objective, concise, and data-driven.'')
   \<and> map fst (described df)
       = filter (\<lambda>c. c \<in> set (map fst (columns df))) (map fst COLUMN_DESCRIPTIONS)
   \<and> (\<forall>c. c \<in> set (map fst (described df)) \<longleftrightarrow>
          c \<in> set (map fst (columns df)) \<and> c \<in> set (map fst COLUMN_DESCRIPTIONS))
   \<and> subseq (map fst (described df)) (map fst COLUMN_DESCRIPTIONS)"
proof (intro conjI allI)
  let ?rest = "format_stats fmt stats @ nl @ nl
         @ u ''Strictly based on the above information:'' @ nl
         @ u ''- Summarize patterns, bottlenecks, or anomalies in 5 to 7 sentences.'' @ nl
         @ u ''- Do NOT assume anything beyond the data.'' @ nl
         @ u ''- Be objective, concise, and data-driven.''"
  let ?h1 = "u ''You are a system performance analyst.''"
  let ?h2 = "u ''Below are column descriptions for the data:''"
  let ?h3 = "u ''Here are key computed statistics from the data:''"
  let ?ds = "map description_line (described df)"
  have p1: "10 \<notin> set ?h1" and p2: "10 \<notin> set ?h2" and p3: "10 \<notin> set ?h3"
    by (simp_all add: u_def)
  have pl: "\<forall>x \<in> set ?ds. 10 \<notin> set x"
    using catalog_lines_plain by (auto simp: described_def)
  have s3: "split_lines (10 # ?h3 @ 10 # ?rest) = [[], ?h3] @ split_lines ?rest"
    using split_lines_line[OF p3, of ?rest] by simp
  have s2: "split_lines (join nl ?ds @ 10 # 10 # ?h3 @ 10 # ?rest)
      = (if described df = [] then [[]] else ?ds) @ [[], ?h3] @ split_lines ?rest"
    using split_lines_join[OF pl, of "10 # ?h3 @ 10 # ?rest"] unfolding s3 by simp
  have s1: "split_lines (?h2 @ 10 # join nl ?ds @ 10 # 10 # ?h3 @ 10 # ?rest)
      = ?h2 # (if described df = [] then [[]] else ?ds) @ [[], ?h3] @ split_lines ?rest"
    using split_lines_line[OF p2, of "join nl ?ds @ 10 # 10 # ?h3 @ 10 # ?rest"]
    unfolding s2 .
  have s0: "split_lines (?h1 @ 10 # 10 # ?h2 @ 10 # join nl ?ds @ 10 # 10 # ?h3 @ 10 # ?rest)
      = ?h1 # [] # ?h2 # (if described df = [] then [[]] else ?ds) @ [[], ?h3] @ split_lines ?rest"
    using split_lines_line[OF p1, of "10 # ?h2 @ 10 # join nl ?ds @ 10 # 10 # ?h3 @ 10 # ?rest"]
    unfolding s1[symmetric] by simp
  have g: "generate_prompt fmt df stats
      = ?h1 @ 10 # 10 # ?h2 @ 10 # join nl ?ds @ 10 # 10 # ?h3 @ 10 # ?rest"
    unfolding generate_prompt_text column_description_text_def nl_def by simp
  show "split_lines (generate_prompt fmt df stats) =
     [?h1, [], ?h2] @ (if described df = [] then [[]] else ?ds) @ [[], ?h3] @ split_lines ?rest"
    unfolding g s0 by simp
  show k: "map fst (described df)
     = filter (\<lambda>c. c \<in> set (map fst (columns df))) (map fst COLUMN_DESCRIPTIONS)"
    by (rule described_keys)
  show "c \<in> set (map fst (described df)) \<longleftrightarrow>
          c \<in> set (map fst (columns df)) \<and> c \<in> set (map fst COLUMN_DESCRIPTIONS)" for c
    unfolding k by auto
  show "subseq (map fst (described df)) (map fst COLUMN_DESCRIPTIONS)"
    unfolding k by (rule subseq_filter_left)
qed

theorem description_section_lists_witness:
  "map fst (described mixed_frame) = [u ''queueLength'', u ''latencyRead'']
   \<and> split_lines (generate_prompt (\<lambda>x. u ''0.00'') mixed_frame
        [(u ''latencyRead'', [(u ''mean'', Fin 9)])])
       = [u ''You are a system performance analyst.'',
          [],
          u ''Below are column descriptions for the data:'',
          u ''- **queueLength**: Number of requests waiting in the system queue.'',
          u ''- **latencyRead**: Time taken to read data (in milliseconds).'',
          [],
          u ''Here are key computed statistics from the data:'',
          u ''**latencyRead**:'',
          u ''  - mean: 0.00'',
          [],
          [],
          u ''Strictly based on the above information:'',
          u ''- Summarize patterns, bottlenecks, or anomalies in 5 to 7 sentences.'',
          u ''- Do NOT assume anything beyond the data.'',
          u ''- Be objective, concise, and data-driven.'']"
proof -
  have d: "described mixed_frame =
     [(u ''queueLength'', u ''Number of requests waiting in the system queue.''),
      (u ''latencyRead'', u ''Time taken to read data (in milliseconds).'')]"
    by (simp add: described_def mixed_frame_def COLUMN_DESCRIPTIONS_def u_def)
  have r: "split_lines (format_stats (\<lambda>x. u ''0.00'') [(u ''latencyRead'', [(u ''mean'', Fin 9)])]
         @ nl @ nl
         @ u ''Strictly based on the above information:'' @ nl
         @ u ''- Summarize patterns, bottlenecks, or anomalies in 5 to 7 sentences.'' @ nl
         @ u ''- Do NOT assume anything beyond the data.'' @ nl
         @ u ''- Be objective, concise, and data-driven.'')
      = [u ''**latencyRead**:'', u ''  - mean: 0.00'', [], [],
          u ''Strictly based on the above information:'',
          u ''- Summarize patterns, bottlenecks, or anomalies in 5 to 7 sentences.'',
          u ''- Do NOT assume anything beyond the data.'',
          u ''- Be objective, concise, and data-driven.'']"
    by (simp add: format_stats_def nl_def u_def)
  note t = description_section_lists[of "\<lambda>x. u ''0.00''" mixed_frame
      "[(u ''latencyRead'', [(u ''mean'', Fin 9)])]"]
  show ?thesis
    using t unfolding r by (simp add: d description_line_def u_def)
qed

section \<open>Numeric and other columns\<close>

lemma plot_loop_files:
  "files (plot_loop L df folder cs w) p = Some (Figure t c d) \<Longrightarrow>
     files w p = Some (Figure t c d) \<or> (\<exists>j dt. (j, c, dt) \<in> set cs \<and> is_numeric_dtype dt)"
proof (induction cs arbitrary: w)
  case Nil
  then show ?case by simp
next
  case (Cons e cs)
  obtain j col dt where e: "e = (j, col, dt)" by (cases e)
  show ?case
  proof (cases "is_numeric_dtype dt")
    case False
    with Cons.prems e have "files (plot_loop L df folder cs w) p = Some (Figure t c d)" by simp
    from Cons.IH[OF this] show ?thesis by auto
  next
    case True
    let ?f = "plot_file L folder col"
    let ?w = "print (u '' Saved plot: '' @ ?f)
                (write_file ?f (Figure (col @ u '' over Time'') col (getitem df j)) w)"
    from Cons.prems e True have "files (plot_loop L df folder cs ?w) p = Some (Figure t c d)"
      by (simp add: Let_def)
    from Cons.IH[OF this] consider "files ?w p = Some (Figure t c d)"
      | "\<exists>j dt. (j, c, dt) \<in> set cs \<and> is_numeric_dtype dt" by blast
    then show ?thesis
    proof cases
      case 1
      have fw: "files ?w = (files w)(?f \<mapsto> Figure (col @ u '' over Time'') col (getitem df j))"
        by (simp add: print_def write_file_def)
      show ?thesis
      proof (cases "p = ?f")
        case True
        with 1 fw have "c = col" by simp
        with e \<open>is_numeric_dtype dt\<close> show ?thesis by auto
      next
        case False
        with 1 fw show ?thesis by simp
      qed
    next
      case 2
      then show ?thesis by auto
    qed
  qed
qed

lemma plot_metrics_files:
  assumes "files (plot_metrics L df csv_name w) p = Some (Figure t c d)"
  shows "files w p = Some (Figure t c d)
     \<or> (\<exists>j. j < length (columns df) \<and> fst (columns df ! j) = c
            \<and> is_numeric_dtype (snd (columns df ! j)))"
proof -
  let ?folder = "path_join (u ''plots'') (splitext_root (basename csv_name))"
  have m: "files (makedirs ?folder w) = files w" by (simp add: makedirs_def)
  from assms have "files (plot_loop L df ?folder (enumerate 0 (columns df)) (makedirs ?folder w)) p
      = Some (Figure t c d)"
    by (simp add: plot_metrics_def Let_def)
  from plot_loop_files[OF this] show ?thesis
    unfolding m by (auto simp: in_set_enumerate_eq)
qed


lemma numeric_entries_distinct:
  "distinct (map fst cols) \<Longrightarrow> distinct (map fst (numeric_entries F df (enumerate n cols)))"
  by (simp add: numeric_entries_keys distinct_map_filter)

lemma numeric_entries_has:
  assumes "j < length cols" "is_numeric_dtype (snd (cols ! j))"
  shows "(fst (cols ! j), column_stats F (getitem df j)) \<in> set (numeric_entries F df (enumerate 0 cols))"
proof -
  obtain col dt where c: "cols ! j = (col, dt)" by (cases "cols ! j")
  have "(j, col, dt) \<in> set (enumerate 0 cols)"
    using assms(1) c by (simp add: in_set_enumerate_eq)
  moreover have "is_numeric_dtype dt" using assms(2) c by simp
  ultimately have "(j, col, dt)
      \<in> set (filter (\<lambda>(j, col, dt). is_numeric_dtype dt) (enumerate 0 cols))"
    by simp
  then have "(\<lambda>(j, col, dt). (col, column_stats F (getitem df j))) (j, col, dt)
      \<in> (\<lambda>(j, col, dt). (col, column_stats F (getitem df j)))
          ` set (filter (\<lambda>(j, col, dt). is_numeric_dtype dt) (enumerate 0 cols))"
    by (rule imageI)
  then show ?thesis
    using c by (simp add: numeric_entries_def)
qed

lemma present_all:
  assumes "list_all (\<lambda>r. list_all2 (\<lambda>cd c. typed (snd cd) c) cols r) rs"
    "list_all (\<lambda>r. \<not> has_na r) rs" "j < length cols" "is_numeric_dtype (snd (cols ! j))"
  shows "map Num (present (map (\<lambda>r. r ! j) rs)) = map (\<lambda>r. r ! j) rs"
  using assms
proof (induction rs)
  case Nil
  then show ?case by simp
next
  case (Cons r rs)
  then obtain x where "r ! j = Num x" using numeric_cell[of cols r j] by auto
  with Cons show ?case by simp
qed

text \<open>
  Claim C6. In a well-formed dataset, a column of numeric dtype has an entry in the
  statistics mapping, and the entry is the record of its mean, median, sample standard
  deviation, minimum and maximum, in this order, taken over the numbers \<open>xs\<close> of the
  column (all its cells, when the dataset has no missing cell): the minimum and the
  maximum are the least and the greatest of \<open>xs\<close>, the median of an odd number of
  values is the middle one of \<open>xs\<close> sorted and that of an even number the float
  midpoint of the two middle ones, the mean is the float mean of \<open>xs\<close>, the standard
  deviation is NaN for fewer than two values and the float sample deviation otherwise.
  A column that is not numeric has no entry at all, and no figure that \<open>plot_metrics\<close>
  saves is a figure of that column (a figure of it found afterwards was there before).
\<close>

theorem numeric_columns_only:
  assumes "wf_frame df" "j < length (columns df)"
  shows "(is_numeric_dtype (snd (columns df ! j)) \<longrightarrow>
            (let xs = present (getitem df j) in
             map_of (calculate_statistics F df) (fst (columns df ! j))
               = Some [(u ''mean'', series_mean F xs), (u ''median'', series_median F xs),
                   (u ''std'', series_std F xs), (u ''min'', series_min xs),
                   (u ''max'', series_max xs)]
             \<and> (complete df \<longrightarrow> map Num xs = getitem df j)
             \<and> (xs \<noteq> [] \<longrightarrow> series_mean F xs = fl_mean F xs
                   \<and> series_min xs = Fin (Min (set xs)) \<and> series_max xs = Fin (Max (set xs)))
             \<and> (odd (length xs) \<longrightarrow> series_median F xs = Fin (sort xs ! (length xs div 2)))
             \<and> (xs \<noteq> [] \<and> even (length xs) \<longrightarrow>
                   series_median F xs
                     = fl_mid F (sort xs ! (length xs div 2 - 1)) (sort xs ! (length xs div 2)))
             \<and> (length xs < 2 \<longrightarrow> series_std F xs = NaN)
             \<and> (2 \<le> length xs \<longrightarrow> series_std F xs = fl_std F xs)))
     \<and> (\<not> is_numeric_dtype (snd (columns df ! j)) \<longrightarrow>
            map_of (calculate_statistics F df) (fst (columns df ! j)) = None
            \<and> (\<forall>p t d. files (plot_metrics L df csv_name w) p
                          = Some (Figure t (fst (columns df ! j)) d) \<longrightarrow>
                        files w p = Some (Figure t (fst (columns df ! j)) d)))"
proof -
  have dl: "distinct (map fst (columns df))" using assms(1) by (simp add: wf_frame_def)
  have cs: "calculate_statistics F df = numeric_entries F df (enumerate 0 (columns df))"
    using dl by (rule calculate_statistics_entries)
  have other: "k = j" if "k < length (columns df)" "fst (columns df ! k) = fst (columns df ! j)" for k
  proof -
    have "map fst (columns df) ! k = map fst (columns df) ! j" using that assms(2) by simp
    then show ?thesis
      using nth_eq_iff_index_eq[OF dl, of k j] that(1) assms(2) by simp
  qed
  let ?xs = "present (getitem df j)"
  have num: "map_of (calculate_statistics F df) (fst (columns df ! j))
               = Some [(u ''mean'', series_mean F ?xs), (u ''median'', series_median F ?xs),
                   (u ''std'', series_std F ?xs), (u ''min'', series_min ?xs),
                   (u ''max'', series_max ?xs)]"
    if n: "is_numeric_dtype (snd (columns df ! j))"
  proof -
    have "distinct (map fst (calculate_statistics F df))"
      unfolding cs using dl by (rule numeric_entries_distinct)
    moreover have "(fst (columns df ! j), column_stats F (getitem df j))
        \<in> set (calculate_statistics F df)"
      unfolding cs using assms(2) n by (rule numeric_entries_has)
    ultimately have "map_of (calculate_statistics F df) (fst (columns df ! j))
              = Some (column_stats F (getitem df j))"
      by simp
    then show ?thesis by (simp add: column_stats_def Let_def)
  qed
  have all: "map Num ?xs = getitem df j"
    if "is_numeric_dtype (snd (columns df ! j))" "complete df"
    unfolding getitem_def
    using assms that by (intro present_all) (simp_all add: wf_frame_def complete_def)
  have mean: "series_mean F ?xs = fl_mean F ?xs" if "?xs \<noteq> []"
    using that by (simp add: series_mean_def)
  have std1: "series_std F ?xs = NaN" if "length ?xs < 2"
    using that by (simp add: series_std_def)
  have std2: "series_std F ?xs = fl_std F ?xs" if "2 \<le> length ?xs"
    using that by (simp add: series_std_def)
  have none: "map_of (calculate_statistics F df) (fst (columns df ! j)) = None"
    if n: "\<not> is_numeric_dtype (snd (columns df ! j))"
  proof -
    have "fst (columns df ! j) \<notin> fst ` set (calculate_statistics F df)"
    proof
      assume "fst (columns df ! j) \<in> fst ` set (calculate_statistics F df)"
      then obtain e where e: "e \<in> set (numeric_entries F df (enumerate 0 (columns df)))"
          "fst e = fst (columns df ! j)"
        unfolding cs by auto
      from numeric_entries_mem[OF e(1)] obtain k where k: "k < length (columns df)"
          "is_numeric_dtype (snd (columns df ! k))"
          "e = (fst (columns df ! k), column_stats F (getitem df k))"
        by blast
      with e(2) have "k = j" by (intro other) simp_all
      with k(2) n show False by simp
    qed
    then show ?thesis by (simp add: map_of_eq_None_iff)
  qed
  have plot: "files w p = Some (Figure t (fst (columns df ! j)) d)"
    if n: "\<not> is_numeric_dtype (snd (columns df ! j))"
      and f: "files (plot_metrics L df csv_name w) p = Some (Figure t (fst (columns df ! j)) d)"
    for p t d
    using plot_metrics_files[OF f]
  proof
    assume "files w p = Some (Figure t (fst (columns df ! j)) d)"
    then show ?thesis .
  next
    assume "\<exists>k. k < length (columns df) \<and> fst (columns df ! k) = fst (columns df ! j)
          \<and> is_numeric_dtype (snd (columns df ! k))"
    then obtain k where k: "k < length (columns df)" "fst (columns df ! k) = fst (columns df ! j)"
        "is_numeric_dtype (snd (columns df ! k))" by blast
    from other[OF k(1,2)] k(3) n show ?thesis by simp
  qed
  show ?thesis
    unfolding Let_def
    using num all mean series_min_Min[of ?xs] series_max_Max[of ?xs]
      series_median_odd[of ?xs F] series_median_even[of ?xs F] std1 std2 none plot
    by blast
qed

lemma mixed_frame_wf: "wf_frame mixed_frame" "complete mixed_frame"
  by (simp_all add: mixed_frame_def wf_frame_def complete_def has_na_def u_def)

theorem numeric_columns_only_witness:
  "wf_frame mixed_frame \<and> complete mixed_frame
   \<and> getitem mixed_frame 0 = [Num 7, Num 11, Num 9]
   \<and> map_of (calculate_statistics exact_floats mixed_frame) (u ''latencyRead'')
       = Some [(u ''mean'', Fin 9), (u ''median'', Fin 9), (u ''std'', Fin 2),
           (u ''min'', Fin 7), (u ''max'', Fin 11)]
   \<and> map_of (calculate_statistics exact_floats mixed_frame) (u ''notes'') = None
   \<and> (\<forall>p t d. files (plot_metrics demo_lib mixed_frame (u ''week1.csv'') demo_world) p
          \<noteq> Some (Figure t (u ''notes'') d))"
proof -
  have len: "0 < length (columns mixed_frame)" "Suc 0 < length (columns mixed_frame)"
    by (simp_all add: mixed_frame_def)
  have c0: "columns mixed_frame ! 0 = (u ''latencyRead'', Numeric)"
    and c1: "columns mixed_frame ! Suc 0 = (u ''notes'', Object)"
    and g0: "getitem mixed_frame 0 = [Num 7, Num 11, Num 9]"
    by (simp_all add: mixed_frame_def getitem_def)
  note t0 = numeric_columns_only[OF mixed_frame_wf(1) len(1), of exact_floats
      demo_lib "u ''week1.csv''" demo_world]
  note t1 = numeric_columns_only[OF mixed_frame_wf(1) len(2), of exact_floats
      demo_lib "u ''week1.csv''" demo_world]
  have sq: "sqrt 4 = 2" by simp
  have a: "map_of (calculate_statistics exact_floats mixed_frame) (u ''latencyRead'')
       = Some [(u ''mean'', Fin 9), (u ''median'', Fin 9), (u ''std'', Fin 2),
           (u ''min'', Fin 7), (u ''max'', Fin 11)]"
  proof -
    have v: "series_mean exact_floats [7, 11, 9] = Fin 9"
      "series_median exact_floats [7, 11, 9] = Fin 9"
      "series_std exact_floats [7, 11, 9] = Fin 2"
      "series_min [7, 11, 9] = Fin 7" "series_max [7, 11, 9] = Fin 11"
      by (simp_all add: series_mean_def series_median_def series_std_def exact_floats_def sq)
    have "map_of (calculate_statistics exact_floats mixed_frame) (u ''latencyRead'')
       = Some [(u ''mean'', series_mean exact_floats [7, 11, 9]),
           (u ''median'', series_median exact_floats [7, 11, 9]),
           (u ''std'', series_std exact_floats [7, 11, 9]),
           (u ''min'', series_min [7, 11, 9]), (u ''max'', series_max [7, 11, 9])]"
      using t0 by (simp add: Let_def c0 g0)
    then show ?thesis unfolding v .
  qed
  have b: "map_of (calculate_statistics exact_floats mixed_frame) (u ''notes'') = None"
    using t1 by (simp add: c1)
  have old: "files demo_world p \<noteq> Some (Figure t (u ''notes'') d)" for p t d
    by (simp add: demo_world_def)
  have c: "files (plot_metrics demo_lib mixed_frame (u ''week1.csv'') demo_world) p
          \<noteq> Some (Figure t (u ''notes'') d)" for p t d
    using t1 old[of p t d] by (auto simp: c1)
  show ?thesis using mixed_frame_wf g0 a b c by blast
qed

section \<open>Properties of generate_summary\<close>

lemma plot_loop_calls: "calls (plot_loop L df folder cs w) = calls w"
  by (induction cs arbitrary: w) (auto simp: Let_def print_def write_file_def)

lemma plot_metrics_calls: "calls (plot_metrics L df csv_name w) = calls w"
  by (simp add: plot_metrics_def Let_def plot_loop_calls makedirs_def)

lemma plot_loop_other:
  "p \<notin> set (map (\<lambda>e. plot_file L folder (fst (snd e)))
              (filter (\<lambda>e. is_numeric_dtype (snd (snd e))) cs)) \<Longrightarrow>
     files (plot_loop L df folder cs w) p = files w p"
  by (induction cs arbitrary: w) (auto simp: Let_def print_def write_file_def)

lemma enumerate_plot_files:
  "map (\<lambda>e. f (fst (snd e))) (filter (\<lambda>e. P (snd (snd e))) (enumerate n cols))
     = map (\<lambda>cd. f (fst cd)) (filter (\<lambda>cd. P (snd cd)) cols)"
  by (induction cols arbitrary: n) auto

lemma plot_metrics_other:
  assumes "p \<notin> set (plot_files L df csv_name)"
  shows "files (plot_metrics L df csv_name w) p = files w p"
proof -
  let ?folder = "path_join (u ''plots'') (splitext_root (basename csv_name))"
  have "p \<notin> set (map (\<lambda>e. plot_file L ?folder (fst (snd e)))
              (filter (\<lambda>e. is_numeric_dtype (snd (snd e))) (enumerate 0 (columns df))))"
    using assms unfolding plot_files_def enumerate_plot_files .
  then have "files (plot_loop L df ?folder (enumerate 0 (columns df)) (makedirs ?folder w)) p
      = files (makedirs ?folder w) p"
    by (rule plot_loop_other)
  then show ?thesis by (simp add: plot_metrics_def Let_def makedirs_def)
qed

text \<open>
  Claim C1. Let the dataset load, let \<open>w1\<close> be the world after the figures are
  saved and \<open>r\<close> the result of the external process. \<open>generate_summary\<close> returns
  normally after running exactly one process. When the status of \<open>r\<close> is not zero,
  the files afterwards are the files of \<open>w1\<close> (nothing is written), so the output
  path holds what it held before the call unless it is the path of a figure saved by
  this call, and the two lines printed last are the error message and the error stream
  of \<open>r\<close>. When the status is zero, the files afterwards are those of \<open>w1\<close> with the
  output path holding the output stream of \<open>r\<close> stripped of surrounding whitespace,
  whatever it held before, and the line printed last reports success.
\<close>

theorem generate_summary_output:
  assumes "load_dataset L w csv_file = Inr df"
  shows "\<exists>w'. generate_summary L csv_file output_txt w = Inr w'
     \<and> calls w' = calls w + 1
     \<and> (returncode (summary_result L (calls w) df) \<noteq> 0 \<longrightarrow>
          files w' = files (plot_metrics L df csv_file w)
          \<and> (output_txt \<notin> set (plot_files L df csv_file) \<longrightarrow>
                files w' output_txt = files w output_txt)
          \<and> console w' = console (plot_metrics L df csv_file w)
               @ [u '' Error while running ollama for '' @ csv_file,
                  stderr (summary_result L (calls w) df)])
     \<and> (returncode (summary_result L (calls w) df) = 0 \<longrightarrow>
          files w' = (files (plot_metrics L df csv_file w))
               (output_txt \<mapsto> Text (strip (stdout (summary_result L (calls w) df))))
          \<and> console w' = console (plot_metrics L df csv_file w)
               @ [u '' Summary written to '' @ output_txt])"
proof -
  let ?w1 = "plot_metrics L df csv_file w"
  let ?r = "summary_result L (calls w) df"
  let ?w2 = "?w1\<lparr>calls := Suc (calls w)\<rparr>"
  have run: "run_ollama L (generate_prompt (format_2f L) df (calculate_statistics (floats L) df)) ?w1
      = (?r, ?w2)"
    by (simp add: run_ollama_def summary_result_def plot_metrics_calls)
  show ?thesis
  proof (cases "returncode ?r = 0")
    case True
    let ?w' = "print (u '' Summary written to '' @ output_txt)
                 (write_file output_txt (Text (strip (stdout ?r))) ?w2)"
    have "generate_summary L csv_file output_txt w = Inr ?w'"
      using True by (simp add: generate_summary_def assms Let_def run)
    moreover have "calls ?w' = calls w + 1"
      by (simp add: print_def write_file_def)
    moreover have "files ?w' = (files ?w1)(output_txt \<mapsto> Text (strip (stdout ?r)))"
      by (simp add: print_def write_file_def)
    moreover have "console ?w' = console ?w1 @ [u '' Summary written to '' @ output_txt]"
      by (simp add: print_def write_file_def)
    ultimately show ?thesis using True by blast
  next
    case False
    let ?w' = "print (stderr ?r) (print (u '' Error while running ollama for '' @ csv_file) ?w2)"
    have "generate_summary L csv_file output_txt w = Inr ?w'"
      using False by (simp add: generate_summary_def assms Let_def run)
    moreover have "calls ?w' = calls w + 1"
      by (simp add: print_def)
    moreover have f: "files ?w' = files ?w1"
      by (simp add: print_def)
    moreover have "files ?w' output_txt = files w output_txt"
      if "output_txt \<notin> set (plot_files L df csv_file)"
      unfolding f using that by (rule plot_metrics_other)
    moreover have "console ?w' = console ?w1
        @ [u '' Error while running ollama for '' @ csv_file, stderr ?r]"
      by (simp add: print_def)
    ultimately show ?thesis using False by blast
  qed
qed

lemma demo_load:
  "load_dataset demo_lib (demo_world\<lparr>calls := c\<rparr>) (u ''week1.csv'')
     = Inr \<lparr>columns = [(u ''queueLength'', Numeric), (u ''notes'', Object)],
            rows = [[Num 1, Txt (u ''a'')], [Num 4, Txt (u ''d'')]]\<rparr>"
  by (simp add: load_dataset_def read_csv_def open_file_def demo_world_def demo_lib_def
      raw_frame_def head_def dropna_def has_na_def)

lemma demo_plot_files:
  "plot_files demo_lib \<lparr>columns = [(u ''queueLength'', Numeric), (u ''notes'', Object)],
       rows = rs\<rparr> (u ''week1.csv'') = [u ''plots/week1/queueLength.png'']"
  by (simp add: plot_files_def plot_file_def path_join_def splitext_root_def basename_def
      clean_filename_def safe_char_def word_char_def ascii_word_def demo_lib_def u_def Let_def)

theorem generate_summary_output_witness:
  "(\<exists>w'. generate_summary demo_lib (u ''week1.csv'') (u ''week1.txt'')
            (demo_world\<lparr>calls := 0\<rparr>) = Inr w'
        \<and> files w' (u ''week1.txt'') = Some (Text (u ''text''))
        \<and> last (console w') = u '' Summary written to week1.txt'')
   \<and> (\<exists>w'. generate_summary demo_lib (u ''week1.csv'') (u ''week1.txt'')
            (demo_world\<lparr>calls := 1\<rparr>) = Inr w'
        \<and> files w' (u ''week1.txt'') = None
        \<and> rev (take 2 (rev (console w')))
             = [u '' Error while running ollama for week1.csv'', u ''boom''])"
proof -
  let ?df = "\<lparr>columns = [(u ''queueLength'', Numeric), (u ''notes'', Object)],
            rows = [[Num 1, Txt (u ''a'')], [Num 4, Txt (u ''d'')]]\<rparr>"
  have rc: "returncode (summary_result demo_lib c df) = (if c = 1 then 1 else 0)" for c df
    by (simp add: summary_result_def demo_lib_def)
  have out: "strip (stdout (summary_result demo_lib c df)) = u ''text''" for c df
    by (simp add: summary_result_def demo_lib_def strip_def isspace_def u_def)
  have err: "stderr (summary_result demo_lib c df) = u ''boom''" for c df
    by (simp add: summary_result_def demo_lib_def)
  have np: "u ''week1.txt'' \<notin> set (plot_files demo_lib ?df (u ''week1.csv''))"
    unfolding demo_plot_files by (simp add: u_def)
  have old: "files (demo_world\<lparr>calls := c\<rparr>) (u ''week1.txt'') = None" for c
    by (simp add: demo_world_def u_def)
  from generate_summary_output[OF demo_load[of 0], of "u ''week1.txt''"]
  obtain w0 where a: "generate_summary demo_lib (u ''week1.csv'') (u ''week1.txt'')
            (demo_world\<lparr>calls := 0\<rparr>) = Inr w0"
    and a1: "files w0 = (files (plot_metrics demo_lib ?df (u ''week1.csv'') (demo_world\<lparr>calls := 0\<rparr>)))
               (u ''week1.txt'' \<mapsto> Text (u ''text''))"
    and a2: "console w0 = console (plot_metrics demo_lib ?df (u ''week1.csv'') (demo_world\<lparr>calls := 0\<rparr>))
               @ [u '' Summary written to '' @ u ''week1.txt'']"
    by (auto simp: rc out)
  from generate_summary_output[OF demo_load[of 1], of "u ''week1.txt''"]
  obtain w1 where b: "generate_summary demo_lib (u ''week1.csv'') (u ''week1.txt'')
            (demo_world\<lparr>calls := 1\<rparr>) = Inr w1"
    and b1: "files w1 (u ''week1.txt'') = files (demo_world\<lparr>calls := 1\<rparr>) (u ''week1.txt'')"
    and b2: "console w1 = console (plot_metrics demo_lib ?df (u ''week1.csv'') (demo_world\<lparr>calls := 1\<rparr>))
               @ [u '' Error while running ollama for '' @ u ''week1.csv'', u ''boom'']"
    using np by (auto simp: rc err)
  have "files w0 (u ''week1.txt'') = Some (Text (u ''text''))" unfolding a1 by simp
  moreover have "last (console w0) = u '' Summary written to week1.txt''"
    unfolding a2 by (simp add: u_def)
  moreover have "files w1 (u ''week1.txt'') = None" unfolding b1 by (rule old)
  moreover have "rev (take 2 (rev (console w1)))
             = [u '' Error while running ollama for week1.csv'', u ''boom'']"
    unfolding b2 by (simp add: u_def)
  ultimately show ?thesis using a b by blast
qed

section \<open>Properties of compare_summaries\<close>

lemma read_pair_texts:
  assumes "files w p1 = Some (Text t1)" "files w p2 = Some (Text t2)"
  shows "read_pair w p1 p2 = Inr (strip t1, strip t2)"
  using assms by (simp add: read_pair_def open_file_def)

lemma compare_loop_upt:
  assumes texts: "\<forall>i<length sf. files w (sf ! i) = Some (Text (ts ! i))"
    and m: "m \<le> length sf - 1"
  shows "k \<le> m \<Longrightarrow> files w0 = files w \<Longrightarrow> calls w0 = c + k \<Longrightarrow>
     \<exists>w'. compare_loop L sf [k..<m] acc w0
            = Inr (acc @ map (\<lambda>i. comparison_block i (strip (stdout (pair_result L c ts i))))
                        (filter (\<lambda>i. returncode (pair_result L c ts i) = 0) [k..<m]), w')
        \<and> files w' = files w \<and> calls w' = c + m"
proof (induction "m - k" arbitrary: k acc w0)
  case 0
  then have "k = m" by simp
  with 0 show ?case by simp
next
  case (Suc d)
  then have km: "k < m" by simp
  then have up: "[k..<m] = k # [Suc k..<m]" by (simp add: upt_conv_Cons)
  have k1: "k < length sf" "k + 1 < length sf" using km m by auto
  have rp: "read_pair w0 (sf ! k) (sf ! Suc k) = Inr (strip (ts ! k), strip (ts ! Suc k))"
    using texts k1 Suc.prems(2) by (intro read_pair_texts) auto
  let ?r = "pair_result L c ts k"
  let ?w1 = "w0\<lparr>calls := Suc (calls w0)\<rparr>"
  have run: "run_ollama L (compare_prompt k (strip (ts ! k)) (strip (ts ! Suc k))) w0 = (?r, ?w1)"
    using Suc.prems(3) by (simp add: run_ollama_def pair_result_def)
  have d: "d = m - Suc k" using Suc.hyps(2) by simp
  have le: "Suc k \<le> m" using km by simp
  show ?case
  proof (cases "returncode ?r = 0")
    case True
    let ?acc = "acc @ [comparison_block k (strip (stdout ?r))]"
    have step: "compare_loop L sf [k..<m] acc w0 = compare_loop L sf [Suc k..<m] ?acc ?w1"
      using True by (simp add: up rp run)
    have "files ?w1 = files w" "calls ?w1 = c + Suc k"
      using Suc.prems(2,3) by simp_all
    from Suc.hyps(1)[OF d le this, of ?acc] obtain w' where
      r: "compare_loop L sf [Suc k..<m] ?acc ?w1
            = Inr (?acc @ map (\<lambda>i. comparison_block i (strip (stdout (pair_result L c ts i))))
                        (filter (\<lambda>i. returncode (pair_result L c ts i) = 0) [Suc k..<m]), w')"
      and fc: "files w' = files w" "calls w' = c + m"
      by blast
    have e: "acc @ map (\<lambda>i. comparison_block i (strip (stdout (pair_result L c ts i))))
                   (filter (\<lambda>i. returncode (pair_result L c ts i) = 0) [k..<m])
        = ?acc @ map (\<lambda>i. comparison_block i (strip (stdout (pair_result L c ts i))))
                   (filter (\<lambda>i. returncode (pair_result L c ts i) = 0) [Suc k..<m])"
      using True by (simp add: up)
    have "compare_loop L sf [k..<m] acc w0
        = Inr (acc @ map (\<lambda>i. comparison_block i (strip (stdout (pair_result L c ts i))))
                   (filter (\<lambda>i. returncode (pair_result L c ts i) = 0) [k..<m]), w')"
      unfolding step e by (rule r)
    with fc show ?thesis by blast
  next
    case False
    let ?w2 = "print (stderr ?r)
                 (print (u '' Error comparing summaries for Week '' @ str_nat (k + 1)
                    @ u '' and Week '' @ str_nat (k + 2)) ?w1)"
    have step: "compare_loop L sf [k..<m] acc w0 = compare_loop L sf [Suc k..<m] acc ?w2"
      using False by (simp add: up rp run)
    have "files ?w2 = files w" "calls ?w2 = c + Suc k"
      using Suc.prems(2,3) by (simp_all add: print_def)
    from Suc.hyps(1)[OF d le this, of acc] obtain w' where
      r: "compare_loop L sf [Suc k..<m] acc ?w2
            = Inr (acc @ map (\<lambda>i. comparison_block i (strip (stdout (pair_result L c ts i))))
                        (filter (\<lambda>i. returncode (pair_result L c ts i) = 0) [Suc k..<m]), w')"
      and fc: "files w' = files w" "calls w' = c + m"
      by blast
    have e: "filter (\<lambda>i. returncode (pair_result L c ts i) = 0) [k..<m]
        = filter (\<lambda>i. returncode (pair_result L c ts i) = 0) [Suc k..<m]"
      using False by (simp add: up)
    have "compare_loop L sf [k..<m] acc w0
        = Inr (acc @ map (\<lambda>i. comparison_block i (strip (stdout (pair_result L c ts i))))
                   (filter (\<lambda>i. returncode (pair_result L c ts i) = 0) [k..<m]), w')"
      unfolding step e by (rule r)
    with fc show ?thesis by blast
  qed
qed

lemma compare_summaries_result:
  assumes "\<forall>i<length summary_files. files w (summary_files ! i) = Some (Text (ts ! i))"
  shows "\<exists>w'. compare_summaries L summary_files output_file w = Inr w'
     \<and> files w' = (files w)(output_file \<mapsto> Text (concat
          (map (\<lambda>i. comparison_block i (strip (stdout (pair_result L (calls w) ts i))))
            (filter (\<lambda>i. returncode (pair_result L (calls w) ts i) = 0)
               [0..<length summary_files - 1]))))
     \<and> calls w' = calls w + (length summary_files - 1)
     \<and> ((\<forall>i<length summary_files - 1. returncode (pair_result L (calls w) ts i) \<noteq> 0)
          \<longrightarrow> files w' output_file = Some (Text []))"
proof -
  let ?n = "length summary_files - 1"
  let ?blocks = "map (\<lambda>i. comparison_block i (strip (stdout (pair_result L (calls w) ts i))))
            (filter (\<lambda>i. returncode (pair_result L (calls w) ts i) = 0) [0..<?n])"
  from compare_loop_upt[OF assms, of ?n 0 w "calls w" L "[]"]
  obtain w1 where loop: "compare_loop L summary_files [0..<?n] [] w = Inr (?blocks, w1)"
      and f: "files w1 = files w" and c: "calls w1 = calls w + ?n"
    by auto
  let ?w' = "print (u '' Differences saved to '' @ output_file)
               (write_file output_file (Text (concat ?blocks)) w1)"
  have r: "compare_summaries L summary_files output_file w = Inr ?w'"
    unfolding compare_summaries_def loop by simp
  have fw: "files ?w' = (files w)(output_file \<mapsto> Text (concat ?blocks))"
    by (simp add: print_def write_file_def f)
  have cw: "calls ?w' = calls w + ?n"
    by (simp add: print_def write_file_def c)
  have none: "files ?w' output_file = Some (Text [])"
    if "\<forall>i<?n. returncode (pair_result L (calls w) ts i) \<noteq> 0"
  proof -
    have b: "?blocks = []"
      using that by (simp add: filter_empty_conv)
    have "files ?w' output_file = Some (Text (concat ?blocks))"
      unfolding fw by simp
    then show ?thesis unfolding b by simp
  qed
  show ?thesis using r fw cw none by blast
qed

text \<open>
  Claim C2. When every summary file can be read, \<open>compare_summaries\<close> returns
  normally and runs one process per adjacent pair. Afterwards the output file holds,
  in place of whatever it held, the concatenation of one block per pair whose process
  returned status zero, in the order of the pairs, and nothing for the other pairs.
  The block of the pair at position \<open>i\<close> (counted from zero) is an empty line, the
  heading \<open>Week i+1 vs Week i+2\<close> after the magnifying glass, the trimmed output of
  the pair's process, and a rule of eighty dashes. When every process fails the file
  is written empty.
\<close>

theorem compare_summaries_blocks:
  assumes "\<forall>i<length summary_files. files w (summary_files ! i) = Some (Text (ts ! i))"
  shows "\<exists>w'. compare_summaries L summary_files output_file w = Inr w'
     \<and> files w' = (files w)(output_file \<mapsto> Text (concat
          (map (\<lambda>i. nl @ [128269] @ u '' Week '' @ str_nat (i + 1) @ u '' vs Week ''
                   @ str_nat (i + 2) @ u '':'' @ nl
                   @ strip (stdout (pair_result L (calls w) ts i)) @ nl
                   @ replicate 80 45 @ nl)
            (filter (\<lambda>i. returncode (pair_result L (calls w) ts i) = 0)
               [0..<length summary_files - 1]))))
     \<and> calls w' = calls w + (length summary_files - 1)
     \<and> ((\<forall>i<length summary_files - 1. returncode (pair_result L (calls w) ts i) \<noteq> 0)
          \<longrightarrow> files w' output_file = Some (Text []))"
  using compare_summaries_result[OF assms, of L output_file]
  unfolding comparison_block_def .

lemma str_nat_small:
  "str_nat (Suc 0) = u ''1''" "str_nat (Suc (Suc 0)) = u ''2''" "str_nat 2 = u ''2''"
  "str_nat 3 = u ''3''" "str_nat 4 = u ''4''"
  by (simp_all add: str_nat.simps u_def)

lemma summary_world_texts:
  "\<forall>i<length summary_paths. files summary_world (summary_paths ! i) = Some (Text (summary_texts ! i))"
proof (intro allI impI)
  fix i assume "i < length summary_paths"
  then have "i = 0 \<or> i = 1 \<or> i = 2 \<or> i = 3" by (auto simp: summary_paths_def)
  then show "files summary_world (summary_paths ! i) = Some (Text (summary_texts ! i))"
    by (auto simp: summary_paths_def summary_world_def summary_texts_def u_def)
qed

theorem compare_summaries_blocks_witness:
  "map (files summary_world) summary_paths = map (\<lambda>t. Some (Text t)) summary_texts
   \<and> map (\<lambda>i. returncode (pair_result demo_lib 0 summary_texts i)) [0, 1, 2] = [0, 1, 0]
   \<and> (\<exists>w'. compare_summaries demo_lib summary_paths (u ''diff.txt'') summary_world = Inr w'
        \<and> files w' (u ''diff.txt'') = Some (Text
             (nl @ [128269] @ u '' Week 1 vs Week 2:'' @ nl @ u ''text'' @ nl
              @ replicate 80 45 @ nl
              @ nl @ [128269] @ u '' Week 3 vs Week 4:'' @ nl @ u ''text'' @ nl
              @ replicate 80 45 @ nl))
        \<and> calls w' = 3)"
proof -
  have m: "map (files summary_world) summary_paths = map (\<lambda>t. Some (Text t)) summary_texts"
    by (simp add: summary_paths_def summary_world_def summary_texts_def u_def)
  have rc: "returncode (pair_result demo_lib 0 ts i) = (if i = 1 then 1 else 0)" for ts i
    by (simp add: pair_result_def demo_lib_def)
  have out: "strip (stdout (pair_result demo_lib 0 ts i)) = u ''text''" for ts i
    by (simp add: pair_result_def demo_lib_def strip_def isspace_def u_def)
  have n: "length summary_paths - 1 = 3" "calls summary_world = 0"
    by (simp_all add: summary_paths_def summary_world_def)
  have up: "[0..<3] = [0, Suc 0, 2]" by (simp add: eval_nat_numeral)
  from compare_summaries_blocks[OF summary_world_texts, of demo_lib "u ''diff.txt''"]
  obtain w' where r: "compare_summaries demo_lib summary_paths (u ''diff.txt'') summary_world = Inr w'"
    and f: "files w' = (files summary_world)(u ''diff.txt'' \<mapsto> Text (concat
          (map (\<lambda>i. nl @ [128269] @ u '' Week '' @ str_nat (i + 1) @ u '' vs Week ''
                   @ str_nat (i + 2) @ u '':'' @ nl
                   @ strip (stdout (pair_result demo_lib (calls summary_world) summary_texts i)) @ nl
                   @ replicate 80 45 @ nl)
            (filter (\<lambda>i. returncode (pair_result demo_lib (calls summary_world) summary_texts i) = 0)
               [0..<length summary_paths - 1]))))"
    and c: "calls w' = calls summary_world + (length summary_paths - 1)"
    by blast
  have "files w' (u ''diff.txt'') = Some (Text
             (nl @ [128269] @ u '' Week 1 vs Week 2:'' @ nl @ u ''text'' @ nl
              @ replicate 80 45 @ nl
              @ nl @ [128269] @ u '' Week 3 vs Week 4:'' @ nl @ u ''text'' @ nl
              @ replicate 80 45 @ nl))"
    unfolding f n rc out up
    by (simp add: str_nat_small) (simp add: u_def)
  moreover have "calls w' = 3" using c n by simp
  moreover have "map (\<lambda>i. returncode (pair_result demo_lib 0 summary_texts i)) [0, 1, 2] = [0, 1, 0]"
    by (simp add: rc)
  ultimately show ?thesis using m r by blast
qed

text \<open>
  Claim C9. Given fewer than two summary files, \<open>compare_summaries\<close> returns
  normally, reads no file and runs no external process (the count of processes run is
  unchanged), and the files afterwards are the files before with the output file
  holding the empty text, whether or not it existed; the only line printed is the
  closing message.
\<close>

theorem compare_summaries_short:
  assumes "length summary_files < 2"
  shows "\<exists>w'. compare_summaries L summary_files output_file w = Inr w'
     \<and> calls w' = calls w
     \<and> files w' = (files w)(output_file \<mapsto> Text [])
     \<and> console w' = console w @ [u '' Differences saved to '' @ output_file]"
proof -
  have "[0..<length summary_files - 1] = []" using assms by simp
  then show ?thesis
    by (simp add: compare_summaries_def print_def write_file_def)
qed

theorem compare_summaries_short_witness:
  "length [u ''w1.txt''] < 2
   \<and> (\<exists>w'. compare_summaries demo_lib [u ''w1.txt''] (u ''out.txt'') demo_world = Inr w'
        \<and> calls w' = 0 \<and> files w' (u ''out.txt'') = Some (Text []))"
proof -
  have l: "length [u ''w1.txt''] < 2" by simp
  from compare_summaries_short[OF l, of demo_lib "u ''out.txt''" demo_world]
  obtain w' where "compare_summaries demo_lib [u ''w1.txt''] (u ''out.txt'') demo_world = Inr w'"
    "calls w' = calls demo_world" "files w' = (files demo_world)(u ''out.txt'' \<mapsto> Text [])"
    by blast
  moreover have "calls demo_world = 0" by (simp add: demo_world_def)
  ultimately show ?thesis using l by auto
qed

end
